theory Spec2Isabelle
  imports Complex_Main "HOL-Library.Sublist"
begin

section \<open>codeclip: strings, buffers and paths\<close>

text \<open>
  The program is \<^verbatim>\<open>src/codeclip.js\<close>. A JavaScript string is kept as the byte
  sequence of its UTF-8 encoding (the strings of this program are well formed: file
  names as \<^verbatim>\<open>readdirSync\<close> decodes them and text as \<^verbatim>\<open>toString('utf8')\<close> decodes
  it), so \<^verbatim>\<open>Buffer.byteLength(s, 'utf8')\<close> is \<open>length s\<close>, while \<^verbatim>\<open>s.length\<close>, the
  number of UTF-16 code units, is \<open>js_length s\<close>. A \<^verbatim>\<open>Buffer\<close> is a list of bytes.
  Sizes are far below \<open>2^53\<close>, so the doubles that hold them are exact and \<open>nat\<close>
  models them.
\<close>

type_synonym jsstring = string
type_synonym buffer = "char list"
type_synonym path = "string list"

definition MAX_SIZE :: nat where
  "MAX_SIZE = 5 * 1024 * 1024"

definition byteLength :: "jsstring \<Rightarrow> nat" where
  "byteLength s = length s"

text \<open>UTF-16 code units of one UTF-8 byte: a continuation byte adds none, the lead
  byte of a four-byte sequence (a surrogate pair) adds two.\<close>

definition utf16_units :: "char \<Rightarrow> nat" where
  "utf16_units c =
     (let b = (of_char c :: nat) in
      if b < 128 then 1 else if b < 192 then 0 else if b < 240 then 1 else 2)"

definition js_length :: "jsstring \<Rightarrow> nat" where
  "js_length s = sum_list (map utf16_units s)"

text \<open>\<^verbatim>\<open>String.prototype.toLowerCase\<close> on the ASCII letters; bytes of other code
  points are kept.\<close>

definition lower_char :: "char \<Rightarrow> char" where
  "lower_char c =
     (let b = (of_char c :: nat) in if 65 \<le> b \<and> b \<le> 90 then char_of (b + 32) else c)"

definition toLowerCase :: "jsstring \<Rightarrow> jsstring" where
  "toLowerCase s = map lower_char s"

definition startsWith :: "jsstring \<Rightarrow> jsstring \<Rightarrow> bool" where
  "startsWith s p = prefix p s"

text \<open>
  An absolute POSIX path is the list of its components below the root; the string the
  program holds is \<open>path_string\<close> of it. The functions of Node's \<^verbatim>\<open>path\<close> module that
  the program calls are modelled on this representation.
\<close>

definition path_string :: "path \<Rightarrow> jsstring" where
  "path_string p = (if p = [] then ''/'' else concat (map (\<lambda>c. CHR ''/'' # c) p))"

definition path_root :: jsstring where
  "path_root = ''/''"

definition path_join :: "path \<Rightarrow> string \<Rightarrow> path" where
  "path_join p c = p @ [c]"

definition path_dirname :: "path \<Rightarrow> path" where
  "path_dirname p = butlast p"

definition path_basename :: "path \<Rightarrow> jsstring" where
  "path_basename p = (if p = [] then [] else last p)"

fun join_slash :: "string list \<Rightarrow> jsstring" where
  "join_slash [] = []"
| "join_slash [c] = c"
| "join_slash (c # d # cs) = c @ CHR ''/'' # join_slash (d # cs)"

fun relative_parts :: "path \<Rightarrow> path \<Rightarrow> string list" where
  "relative_parts (f # fs) (t # ts) =
     (if f = t then relative_parts fs ts
      else replicate (Suc (length fs)) ''..'' @ (t # ts))"
| "relative_parts [] ts = ts"
| "relative_parts fs [] = replicate (length fs) ''..''"

definition path_relative :: "path \<Rightarrow> path \<Rightarrow> jsstring" where
  "path_relative from to = join_slash (relative_parts from to)"

subsection \<open>\<^verbatim>\<open>path.extname\<close>\<close>

text \<open>
  Node's \<^verbatim>\<open>path.extname\<close> (POSIX) scans the path string from its end: it stops at
  the first separator after the last component, remembers the last dot of that
  component, and whether a character that is not a dot stands before it.
\<close>

record extname_state =
  startDot :: int
  startPart :: int
  endPos :: int
  matchedSlash :: bool
  preDotState :: int

definition extname_init :: extname_state where
  "extname_init =
     \<lparr>startDot = - 1, startPart = 0, endPos = - 1, matchedSlash = True, preDotState = 0\<rparr>"

definition extname_char :: "char \<Rightarrow> int \<Rightarrow> extname_state \<Rightarrow> extname_state" where
  "extname_char code i st =
     (let st1 = (if endPos st = - 1 then st\<lparr>matchedSlash := False, endPos := i + 1\<rparr> else st)
      in if code = CHR ''.'' then
           (if startDot st1 = - 1 then st1\<lparr>startDot := i\<rparr>
            else if preDotState st1 \<noteq> 1 then st1\<lparr>preDotState := 1\<rparr>
            else st1)
         else if startDot st1 \<noteq> - 1 then st1\<lparr>preDotState := - 1\<rparr>
         else st1)"

text \<open>\<open>extname_loop p n st\<close> runs the loop for \<open>i = n - 1\<close> down to \<open>0\<close>.\<close>

fun extname_loop :: "jsstring \<Rightarrow> nat \<Rightarrow> extname_state \<Rightarrow> extname_state" where
  "extname_loop p 0 st = st"
| "extname_loop p (Suc i) st =
     (if p ! i = CHR ''/'' then
        (if \<not> matchedSlash st then st\<lparr>startPart := int i + 1\<rparr>
         else extname_loop p i st)
      else extname_loop p i (extname_char (p ! i) (int i) st))"

definition extname :: "jsstring \<Rightarrow> jsstring" where
  "extname p =
     (let st = extname_loop p (length p) extname_init in
      if startDot st = - 1 \<or> endPos st = - 1 \<or> preDotState st = 0 \<or>
         (preDotState st = 1 \<and> startDot st = endPos st - 1 \<and> startDot st = startPart st + 1)
      then []
      else drop (nat (startDot st)) (take (nat (endPos st)) p))"

section \<open>The repository locator: \<^verbatim>\<open>isGitRepo\<close>\<close>

text \<open>
  What the locator reads of the file system: \<^verbatim>\<open>fs.existsSync\<close>, which never throws,
  and \<^verbatim>\<open>fs.statSync(p).isDirectory()\<close>, where \<open>None\<close> stands for a throw (the
  \<^verbatim>\<open>try\<close>/\<^verbatim>\<open>catch\<close> of the source swallows it).
\<close>

record fsapi =
  existsSync :: "path \<Rightarrow> bool"
  statSync_isDirectory :: "path \<Rightarrow> bool option"
  readFileSync_utf8 :: "path \<Rightarrow> jsstring option"

definition git_marker_here :: "('a fsapi_scheme) \<Rightarrow> path \<Rightarrow> bool" where
  "git_marker_here fs current =
     (let gitPath = path_join current ''.git'' in
      existsSync fs gitPath \<and> statSync_isDirectory fs gitPath = Some True)"

function isGitRepo :: "('a fsapi_scheme) \<Rightarrow> path \<Rightarrow> path option" where
  "isGitRepo fs current =
     (if path_string current \<noteq> path_root then
        (if git_marker_here fs current then Some current
         else isGitRepo fs (path_dirname current))
      else None)"
  by pat_completeness auto
termination
  by (relation "measure (\<lambda>(fs, current). length current)")
     (auto simp: path_string_def path_root_def path_dirname_def split: if_splits)

declare isGitRepo.simps [simp del]

section \<open>The binary detector: \<^verbatim>\<open>isBinaryFile\<close>\<close>

definition binaryExts :: "jsstring list" where
  "binaryExts =
     [''.exe'', ''.dll'', ''.so'', ''.dylib'', ''.class'', ''.jar'', ''.pyc'', ''.o'', ''.obj'',
      ''.jpg'', ''.jpeg'', ''.png'', ''.gif'', ''.bmp'', ''.ico'', ''.webp'', ''.psd'', ''.tiff'',
      ''.mp3'', ''.wav'', ''.flac'', ''.aac'', ''.ogg'', ''.mp4'', ''.avi'', ''.mov'', ''.mkv'', ''.flv'',
      ''.pdf'', ''.doc'', ''.docx'', ''.xls'', ''.xlsx'', ''.ppt'', ''.pptx'', ''.odt'',
      ''.zip'', ''.rar'', ''.7z'', ''.tar'', ''.gz'', ''.bz2'', ''.xz'', ''.tgz'',
      ''.db'', ''.sqlite'', ''.mdb'']"

definition nonPrintableByte :: "char \<Rightarrow> bool" where
  "nonPrintableByte byte =
     ((of_char byte :: nat) < 32 \<and> (of_char byte :: nat) \<noteq> 9 \<and>
      (of_char byte :: nat) \<noteq> 10 \<and> (of_char byte :: nat) \<noteq> 13)"

text \<open>The \<^verbatim>\<open>for\<close> loop of step 3, from index \<open>i\<close> with the count so far.\<close>

function countNonPrintable :: "buffer \<Rightarrow> nat \<Rightarrow> nat \<Rightarrow> nat \<Rightarrow> nat" where
  "countNonPrintable buf sampleSize i nonPrintable =
     (if i < sampleSize then
        countNonPrintable buf sampleSize (i + 1)
          (if nonPrintableByte (buf ! i) then nonPrintable + 1 else nonPrintable)
      else nonPrintable)"
  by pat_completeness auto
termination
  by (relation "measure (\<lambda>(buf, sampleSize, i, nonPrintable). sampleSize - i)") auto

declare countNonPrintable.simps [simp del]

text \<open>
  The quotient \<^verbatim>\<open>nonPrintable / sampleSize\<close> is a JavaScript number: \<open>0 / 0\<close> is
  \<open>NaN\<close>, and every comparison with \<open>NaN\<close> is false. For \<open>0 < sampleSize \<le> 8000\<close> the
  rounded quotient exceeds the double \<^verbatim>\<open>0.3\<close> exactly when the exact quotient exceeds
  \<open>3/10\<close>: an exact quotient of \<open>3/10\<close> rounds to the double of the literal, and any
  other quotient differs from \<open>3/10\<close> by at least \<open>1/80000\<close>, far more than the spacing
  of doubles there. So the finite values are kept as rationals.
\<close>

datatype jsnumber = NaN | PosInfinity | Finite rat

definition js_divide :: "nat \<Rightarrow> nat \<Rightarrow> jsnumber" where
  "js_divide a b =
     (if b = 0 then (if a = 0 then NaN else PosInfinity)
      else Finite (of_nat a / of_nat b))"

fun js_greater :: "jsnumber \<Rightarrow> rat \<Rightarrow> bool" where
  "js_greater NaN r = False"
| "js_greater PosInfinity r = True"
| "js_greater (Finite q) r = (r < q)"

definition isBinaryFile :: "buffer \<Rightarrow> jsstring \<Rightarrow> bool" where
  "isBinaryFile buf filePath =
     (let ext = toLowerCase (extname filePath) in
      if ext \<in> set binaryExts then True
      else if char_of (0::nat) \<in> set buf then True
      else
        let sampleSize = min (length buf) 8000;
            nonPrintable = countNonPrintable buf sampleSize 0 0
        in js_greater (js_divide nonPrintable sampleSize) (3 / 10))"

section \<open>The tree walker: \<^verbatim>\<open>processDirectory\<close>\<close>

text \<open>
  \<^verbatim>\<open>buffer.toString('utf8')\<close>: a well-formed sequence is kept, every maximal
  ill-formed part becomes U+FFFD (bytes EF BF BD). The arguments are the number of
  continuation bytes still needed, the bytes of the sequence read so far, and the range
  allowed for the next byte.
\<close>

definition replacement_char :: jsstring where
  "replacement_char = [CHR 0xEF, CHR 0xBF, CHR 0xBD]"

fun utf8_decode :: "nat \<Rightarrow> char list \<Rightarrow> nat \<Rightarrow> nat \<Rightarrow> buffer \<Rightarrow> jsstring" where
  "utf8_decode needed pending lower upper [] =
     (if needed = 0 then [] else replacement_char)"
| "utf8_decode needed pending lower upper (c # cs) =
     (let b = (of_char c :: nat) in
      if needed = 0 then
        (if b < 0x80 then c # utf8_decode 0 [] 0x80 0xBF cs
         else if 0xC2 \<le> b \<and> b \<le> 0xDF then utf8_decode 1 [c] 0x80 0xBF cs
         else if 0xE0 \<le> b \<and> b \<le> 0xEF then
           utf8_decode 2 [c] (if b = 0xE0 then 0xA0 else 0x80) (if b = 0xED then 0x9F else 0xBF) cs
         else if 0xF0 \<le> b \<and> b \<le> 0xF4 then
           utf8_decode 3 [c] (if b = 0xF0 then 0x90 else 0x80) (if b = 0xF4 then 0x8F else 0xBF) cs
         else replacement_char @ utf8_decode 0 [] 0x80 0xBF cs)
      else if b < lower \<or> upper < b then
        replacement_char @ utf8_decode 0 [] 0x80 0xBF (c # cs)
      else if needed = 1 then pending @ [c] @ utf8_decode 0 [] 0x80 0xBF cs
      else utf8_decode (needed - 1) (pending @ [c]) 0x80 0xBF cs)"

definition toString_utf8 :: "buffer \<Rightarrow> jsstring" where
  "toString_utf8 buf = utf8_decode 0 [] 0x80 0xBF buf"

text \<open>
  What the walker reads of the file system below the invocation directory, as a tree
  (symbolic links are never followed, so the walk of a real file system is one):
  an entry is its name and what \<^verbatim>\<open>lstatSync\<close>, \<^verbatim>\<open>readdirSync\<close> and \<^verbatim>\<open>readFileSync\<close>
  answer for it. \<open>None\<close> stands for a throw.
\<close>

datatype fsnode =
    Unstattable
  | Symlink
  | Special
  | RegularFile "buffer option"
  | Directory "(string \<times> fsnode) list option"

text \<open>The two module-level variables.\<close>

record wstate =
  currentSize :: nat
  limitReached :: bool

text \<open>What stays fixed during a walk: \<^verbatim>\<open>process.cwd()\<close> and the rule set \<^verbatim>\<open>ig\<close>, of
  which the walker only calls \<^verbatim>\<open>ig.ignores(relativePath)\<close>.\<close>

record walk_ctx =
  cwd :: path
  ig :: "jsstring \<Rightarrow> bool"

definition folderHeaderOf :: "jsstring \<Rightarrow> jsstring" where
  "folderHeaderOf relativePath = ''\<newline>--- Folder: '' @ relativePath @ '' ---\<newline>''"

definition fileHeaderOf :: "jsstring \<Rightarrow> jsstring" where
  "fileHeaderOf relativePath = ''\<newline>--- File: '' @ relativePath @ '' ---\<newline>''"

definition binaryNoteOf :: "jsstring \<Rightarrow> jsstring" where
  "binaryNoteOf fileHeader = fileHeader @ ''[BINARY FILE SKIPPED]\<newline>''"

definition dotSkipped :: "string \<Rightarrow> bool" where
  "dotSkipped file = (startsWith file ''.'' \<and> file \<noteq> ''.gitignore'')"

text \<open>How one pass through the loop body ends: \<^verbatim>\<open>continue\<close> (or the end of the
  body) with the buffer and the variables as they are then, or \<^verbatim>\<open>return output\<close>.\<close>

datatype flow = Continue jsstring wstate | Return jsstring wstate

text \<open>The branch \<^verbatim>\<open>else if (stats.isFile())\<close>, lines 136 to 178.\<close>

definition processFile ::
  "jsstring \<Rightarrow> jsstring \<Rightarrow> buffer option \<Rightarrow> jsstring \<Rightarrow> wstate \<Rightarrow> flow" where
  "processFile filePath relativePath readResult output s =
     (let fileHeader = fileHeaderOf relativePath;
          headerSize = byteLength fileHeader
      in if currentSize s + headerSize > MAX_SIZE then Return output (s\<lparr>limitReached := True\<rparr>)
         else case readResult of
           None \<Rightarrow> Continue output s
         | Some buf \<Rightarrow>
             if isBinaryFile buf filePath then
               (let note = binaryNoteOf fileHeader;
                    noteSize = byteLength note
                in if currentSize s + noteSize > MAX_SIZE
                   then Return output (s\<lparr>limitReached := True\<rparr>)
                   else Continue (output @ note) (s\<lparr>currentSize := currentSize s + noteSize\<rparr>))
             else
               (let content = toString_utf8 buf;
                    contentSize = byteLength content;
                    totalSize = headerSize + contentSize
                in if currentSize s + totalSize > MAX_SIZE
                   then Return output (s\<lparr>limitReached := True\<rparr>)
                   else Continue (output @ fileHeader @ content)
                          (s\<lparr>currentSize := currentSize s + totalSize\<rparr>)))"

text \<open>
  \<open>processDirectory cx dirPath listing s\<close> is the call \<^verbatim>\<open>processDirectory(dirPath, ig)\<close>
  where \<^verbatim>\<open>readdirSync(dirPath)\<close> answers \<open>listing\<close> and the module variables hold \<open>s\<close>;
  it gives the string returned and the variables afterwards. \<open>processEntries\<close> is the
  \<^verbatim>\<open>for\<close> loop over the remaining entries, \<open>output\<close> being the local buffer.
\<close>

function processDirectory ::
    "walk_ctx \<Rightarrow> path \<Rightarrow> (string \<times> fsnode) list option \<Rightarrow> wstate \<Rightarrow> jsstring \<times> wstate"
  and processEntries ::
    "walk_ctx \<Rightarrow> path \<Rightarrow> (string \<times> fsnode) list \<Rightarrow> jsstring \<Rightarrow> wstate \<Rightarrow> jsstring \<times> wstate"
  where
  "processDirectory cx dirPath None s = ([], s)"
| "processDirectory cx dirPath (Some files) s = processEntries cx dirPath files [] s"
| "processEntries cx dirPath [] output s = (output, s)"
| "processEntries cx dirPath ((file, node) # rest) output s =
     (if limitReached s then (output, s)
      else
        let filePath = path_join dirPath file;
            relativePath = path_relative (cwd cx) filePath
        in if dotSkipped file then processEntries cx dirPath rest output s
           else case node of
             Unstattable \<Rightarrow> processEntries cx dirPath rest output s
           | Symlink \<Rightarrow> processEntries cx dirPath rest output s
           | Special \<Rightarrow> processEntries cx dirPath rest output s
           | Directory listing \<Rightarrow>
               if ig cx relativePath then processEntries cx dirPath rest output s
               else
                 let folderHeader = folderHeaderOf relativePath
                 in if currentSize s + js_length folderHeader > MAX_SIZE
                    then (output, s\<lparr>limitReached := True\<rparr>)
                    else
                      let (folderOutput, s1) = processDirectory cx filePath listing s
                      in if folderOutput \<noteq> [] then
                           processEntries cx dirPath rest (output @ folderHeader @ folderOutput)
                             (s1\<lparr>currentSize := currentSize s1 + byteLength folderHeader\<rparr>)
                         else processEntries cx dirPath rest output s1
           | RegularFile readResult \<Rightarrow>
               if ig cx relativePath then processEntries cx dirPath rest output s
               else
                 (case processFile (path_string filePath) relativePath readResult output s of
                    Return out s1 \<Rightarrow> (out, s1)
                  | Continue out s1 \<Rightarrow> processEntries cx dirPath rest out s1))"
  by pat_completeness auto
termination
  by (relation "measure (case_sum
        (\<lambda>(cx, dirPath, listing, s). size_option (size_list (size_prod (\<lambda>_. 0) size)) listing)
        (\<lambda>(cx, dirPath, files, output, s). size_list (size_prod (\<lambda>_. 0) size) files))")
     auto

section \<open>The ignore-rule loader and the entry point\<close>

text \<open>
  The rule set of the \<^verbatim>\<open>ignore\<close> package is kept as the texts handed to \<^verbatim>\<open>ig.add\<close>, in
  the order of the calls. \<open>loadRulesLoop\<close> is the \<^verbatim>\<open>while\<close> loop of
  \<^verbatim>\<open>loadGitIgnoreRules\<close>; the comparisons are those of the source, on the path strings.
\<close>

function loadRulesLoop ::
  "('a fsapi_scheme) \<Rightarrow> path \<Rightarrow> path \<Rightarrow> jsstring list \<Rightarrow> jsstring list" where
  "loadRulesLoop fs rootDir current added =
     (if path_string current \<noteq> [] \<and> startsWith (path_string current) (path_string rootDir) then
        (let gitignorePath = path_join current ''.gitignore'';
             added1 =
               (if existsSync fs gitignorePath then
                  (case readFileSync_utf8 fs gitignorePath of
                     Some rules \<Rightarrow> added @ [rules]
                   | None \<Rightarrow> added)
                else added)
         in if path_string current = path_string rootDir then added1
            else loadRulesLoop fs rootDir (path_dirname current) added1)
      else added)"
  by pat_completeness auto
termination
proof (relation "measure (\<lambda>(fs, rootDir, current, added). length current)")
  show "wf (measure (\<lambda>(fs, rootDir, current, added). length current))"
    by simp
next
  fix fs :: "'a fsapi_scheme" and rootDir current :: path
    and added x xa :: "jsstring list"
  assume go: "path_string current \<noteq> [] \<and> startsWith (path_string current) (path_string rootDir)"
    and ne: "path_string current \<noteq> path_string rootDir"
  have "current \<noteq> []"
  proof
    assume "current = []"
    with go have "prefix (path_string rootDir) ''/''"
      by (simp add: path_string_def startsWith_def)
    moreover have "path_string rootDir \<noteq> []"
      by (cases rootDir) (simp_all add: path_string_def)
    ultimately have "path_string rootDir = ''/''"
      by (cases "path_string rootDir") simp_all
    with ne \<open>current = []\<close> show False
      by (simp add: path_string_def)
  qed
  then show "((fs, rootDir, path_dirname current, xa), (fs, rootDir, current, added))
      \<in> measure (\<lambda>(fs, rootDir, current, added). length current)"
    by (simp add: path_dirname_def)
qed

declare loadRulesLoop.simps [simp del]

record world = fsapi +
  process_cwd :: path
  readdir_tree :: "(string \<times> fsnode) list option"
  answer :: jsstring
  clipboard_write :: "jsstring \<Rightarrow> jsstring option"

definition loadGitIgnoreRules :: "world \<Rightarrow> path \<Rightarrow> jsstring list" where
  "loadGitIgnoreRules w rootDir = loadRulesLoop w rootDir (process_cwd w) []"

text \<open>
  A run of \<^verbatim>\<open>main\<close>. The world gives the invocation directory, the answers of the file
  system, the line typed at the prompt, and the clipboard (\<open>None\<close>: the write succeeds,
  \<open>Some msg\<close>: it throws an error with that message). \<open>matcher\<close> is the \<^verbatim>\<open>ignore\<close>
  package: what \<^verbatim>\<open>ig.ignores\<close> answers for a rule set and a relative path. The outcome
  records whether the prompt was shown, the lines printed, the text handed to
  \<^verbatim>\<open>clipboardy.write\<close> (if it was called), and the module variables at the end.
\<close>

datatype console = Cancelled | TruncatedNotice | CopiedNotice | ClipboardError jsstring

record outcome =
  prompted :: bool
  printed :: "console list"
  written :: "jsstring option"
  vars :: wstate

definition initial_vars :: wstate where
  "initial_vars = \<lparr>currentSize = 0, limitReached = False\<rparr>"

definition rootHeaderOf :: "jsstring \<Rightarrow> jsstring" where
  "rootHeaderOf name = ''--- Root Directory: '' @ name @ '' ---\<newline>''"

text \<open>Lines 199 to 218: what \<^verbatim>\<open>main\<close> does once it goes on.\<close>

definition main_walk ::
  "(jsstring list \<Rightarrow> jsstring \<Rightarrow> bool) \<Rightarrow> world \<Rightarrow> path option \<Rightarrow> outcome" where
  "main_walk matcher w gitRoot =
     (let rootDir = process_cwd w;
          rules = loadGitIgnoreRules w (case gitRoot of Some r \<Rightarrow> r | None \<Rightarrow> rootDir);
          header = rootHeaderOf (path_basename rootDir);
          s0 = initial_vars\<lparr>currentSize := currentSize initial_vars + byteLength header\<rparr>;
          (walked, s1) =
            processDirectory \<lparr>cwd = rootDir, ig = matcher rules\<rparr> rootDir (readdir_tree w) s0;
          finalOutput = header @ walked
      in case clipboard_write w finalOutput of
           None \<Rightarrow>
             \<lparr>prompted = (gitRoot = None),
              printed = [if limitReached s1 then TruncatedNotice else CopiedNotice],
              written = Some finalOutput, vars = s1\<rparr>
         | Some msg \<Rightarrow>
             \<lparr>prompted = (gitRoot = None), printed = [ClipboardError msg],
              written = Some finalOutput, vars = s1\<rparr>)"

definition main :: "(jsstring list \<Rightarrow> jsstring \<Rightarrow> bool) \<Rightarrow> world \<Rightarrow> outcome" where
  "main matcher w =
     (let rootDir = process_cwd w;
          gitRoot = isGitRepo w rootDir
      in if gitRoot = None then
           (if toLowerCase (answer w) \<noteq> ''y'' then
              \<lparr>prompted = True, printed = [Cancelled], written = None, vars = initial_vars\<rparr>
            else main_walk matcher w gitRoot)
         else main_walk matcher w gitRoot)"

section \<open>Notions used to state the properties\<close>

text \<open>An entry the loop body passes over without touching the buffer or the
  variables: a dotfile other than \<^verbatim>\<open>.gitignore\<close>, an entry \<^verbatim>\<open>lstatSync\<close> fails on, a
  symbolic link, an entry the rule set ignores, or one that is neither a directory nor
  a regular file.\<close>

definition entrySkipped :: "walk_ctx \<Rightarrow> path \<Rightarrow> string \<Rightarrow> fsnode \<Rightarrow> bool" where
  "entrySkipped cx dirPath name node =
     (dotSkipped name \<or> node = Unstattable \<or> node = Symlink \<or> node = Special \<or>
      ig cx (path_relative (cwd cx) (path_join dirPath name)))"

text \<open>A byte of printable ASCII text: a printable character, a tab, a line feed or a
  carriage return.\<close>

definition printableAsciiText :: "char \<Rightarrow> bool" where
  "printableAsciiText c =
     ((32 \<le> (of_char c :: nat) \<and> (of_char c :: nat) \<le> 126) \<or>
      (of_char c :: nat) = 9 \<or> (of_char c :: nat) = 10 \<or> (of_char c :: nat) = 13)"

text \<open>A world with no repository above the invocation directory, where the operator
  answers \<open>n\<close>.\<close>

definition world_no_repo :: world where
  "world_no_repo =
     \<lparr>existsSync = (\<lambda>p. False), statSync_isDirectory = (\<lambda>p. None),
      readFileSync_utf8 = (\<lambda>p. None), process_cwd = [''home'', ''u'', ''proj''],
      readdir_tree = Some [(''a.txt'', RegularFile (Some ''hello''))],
      answer = ''n'', clipboard_write = (\<lambda>t. None)\<rparr>"

text \<open>Directories that are empty after filtering: every entry is passed over, is a
  file that cannot be read, or is a directory that is itself empty after filtering.\<close>

function emptyAfterFiltering :: "walk_ctx \<Rightarrow> path \<Rightarrow> (string \<times> fsnode) list option \<Rightarrow> bool"
  and allFiltered :: "walk_ctx \<Rightarrow> path \<Rightarrow> (string \<times> fsnode) list \<Rightarrow> bool"
  where
  "emptyAfterFiltering cx dirPath None = True"
| "emptyAfterFiltering cx dirPath (Some files) = allFiltered cx dirPath files"
| "allFiltered cx dirPath [] = True"
| "allFiltered cx dirPath ((name, node) # rest) =
     ((entrySkipped cx dirPath name node \<or>
       (case node of
          Directory entries \<Rightarrow> emptyAfterFiltering cx (path_join dirPath name) entries
        | RegularFile None \<Rightarrow> True
        | _ \<Rightarrow> False)) \<and>
      allFiltered cx dirPath rest)"
  by pat_completeness auto
termination
  by (relation "measure (case_sum
        (\<lambda>(cx, dirPath, entries). size_option (size_list (size_prod (\<lambda>_. 0) size)) entries)
        (\<lambda>(cx, dirPath, files). size_list (size_prod (\<lambda>_. 0) size) files))")
     auto

text \<open>A small world: no repository, the operator answers \<open>y\<close>, the clipboard accepts
  the text.\<close>

definition tiny_world :: world where
  "tiny_world =
     \<lparr>existsSync = (\<lambda>p. False), statSync_isDirectory = (\<lambda>p. None),
      readFileSync_utf8 = (\<lambda>p. None), process_cwd = [''w''],
      readdir_tree = Some [(''a.txt'', RegularFile (Some ''hello'')),
                           (''sub'', Directory (Some [(''c.txt'', RegularFile (Some ''world''))]))],
      answer = ''y'', clipboard_write = (\<lambda>t. None)\<rparr>"

text \<open>A walk from \<^verbatim>\<open>/w\<close> with no ignore rule, right after the root header
  \<^verbatim>\<open>--- Root Directory: w ---\<close> (26 bytes) was counted; a directory \<^verbatim>\<open>sub\<close> holding a
  two-byte text file and a text file of 5 MiB.\<close>

definition cx_plain :: walk_ctx where
  "cx_plain = \<lparr>cwd = [''w''], ig = (\<lambda>p. False)\<rparr>"

definition big_text :: buffer where
  "big_text = replicate 5242880 (CHR ''x'')"

definition sub_entries :: "(string \<times> fsnode) list" where
  "sub_entries =
     [(''a.txt'', RegularFile (Some ''hi'')), (''big.txt'', RegularFile (Some big_text))]"

definition after_root_header :: wstate where
  "after_root_header = \<lparr>currentSize = 26, limitReached = False\<rparr>"

text \<open>The start directory and its parents, nearest first, the file system root left
  out.\<close>

definition ancestors_below_root :: "path \<Rightarrow> path list" where
  "ancestors_below_root dir = rev (tl (prefixes dir))"

text \<open>The words of section 4.1 of the specification: the first ancestor, walking
  upward, that holds a marker directory.\<close>

definition nearest_marker :: "('a fsapi_scheme) \<Rightarrow> path \<Rightarrow> path option" where
  "nearest_marker fs dir = find (git_marker_here fs) (ancestors_below_root dir)"

text \<open>The words of the claim: the topmost ancestor that holds a marker directory, the
  root included.\<close>

definition topmost_marker :: "('a fsapi_scheme) \<Rightarrow> path \<Rightarrow> path option" where
  "topmost_marker fs dir = find (git_marker_here fs) (prefixes dir)"

text \<open>Three file systems: a repository nested in another one; a marker directory in
  the root only; and a repository whose inner \<^verbatim>\<open>.git\<close> exists but cannot be examined.\<close>

definition fs_nested :: fsapi where
  "fs_nested =
     \<lparr>existsSync = (\<lambda>p. p = [''home'', ''.git''] \<or> p = [''home'', ''proj'', ''.git'']),
      statSync_isDirectory =
        (\<lambda>p. if p = [''home'', ''.git''] \<or> p = [''home'', ''proj'', ''.git''] then Some True else None),
      readFileSync_utf8 = (\<lambda>p. None)\<rparr>"

definition fs_root_only :: fsapi where
  "fs_root_only =
     \<lparr>existsSync = (\<lambda>p. p = [''.git'']),
      statSync_isDirectory = (\<lambda>p. if p = [''.git''] then Some True else None),
      readFileSync_utf8 = (\<lambda>p. None)\<rparr>"

definition fs_denied :: fsapi where
  "fs_denied =
     \<lparr>existsSync = (\<lambda>p. p = [''home'', ''.git''] \<or> p = [''home'', ''proj'', ''.git'']),
      statSync_isDirectory = (\<lambda>p. if p = [''home'', ''.git''] then Some True else None),
      readFileSync_utf8 = (\<lambda>p. None)\<rparr>"




text \<open>The directory whose ignore-file is the outermost one loaded, \<^verbatim>\<open>gitRoot || rootDir\<close>
  in \<^verbatim>\<open>main\<close>: the repository root when there is one, the invocation directory
  otherwise. \<open>walkContext\<close> is what \<^verbatim>\<open>main\<close> hands to the walker.\<close>

definition effectiveRoot :: "world \<Rightarrow> path" where
  "effectiveRoot w =
     (case isGitRepo w (process_cwd w) of Some r \<Rightarrow> r | None \<Rightarrow> process_cwd w)"

definition walkContext :: "(jsstring list \<Rightarrow> jsstring \<Rightarrow> bool) \<Rightarrow> world \<Rightarrow> walk_ctx" where
  "walkContext matcher w =
     \<lparr>cwd = process_cwd w, ig = matcher (loadGitIgnoreRules w (effectiveRoot w))\<rparr>"



text \<open>\<open>nested n leaf\<close> is a chain of \<open>n\<close> directories, each named \<^verbatim>\<open>d\<close> and holding
  only the next, the innermost holding the entries \<open>leaf\<close>.\<close>

primrec nested :: "nat \<Rightarrow> (string \<times> fsnode) list \<Rightarrow> (string \<times> fsnode) list" where
  "nested 0 leaf = leaf"
| "nested (Suc n) leaf = [(''d'', Directory (Some (nested n leaf)))]"

text \<open>A tree of 1700 nested directories \<^verbatim>\<open>d/d/.../d\<close> (a relative path of 3399
  characters) whose innermost directory holds two text files \<^verbatim>\<open>x\<close> and \<^verbatim>\<open>y\<close> of
  2618000 bytes each.\<close>

definition half_text :: buffer where
  "half_text = replicate 2618000 (CHR ''a'')"

definition leaf_files :: "(string \<times> fsnode) list" where
  "leaf_files = [(''x'', RegularFile (Some half_text)), (''y'', RegularFile (Some half_text))]"

definition deep_tree :: "(string \<times> fsnode) list" where
  "deep_tree = nested 1700 leaf_files"

text \<open>The byte sizes of the units of output the walk of a tree can append: for a
  directory its folder header, for a readable file its header with the binary marker
  or its header with its decoded content. \<open>largestUnit\<close> is the largest of them.\<close>

function unitSizes :: "walk_ctx \<Rightarrow> path \<Rightarrow> (string \<times> fsnode) list \<Rightarrow> nat list" where
  "unitSizes cx dirPath [] = []"
| "unitSizes cx dirPath ((name, node) # rest) =
     (let filePath = path_join dirPath name;
          relativePath = path_relative (cwd cx) filePath
      in case node of
           Directory entries \<Rightarrow>
             byteLength (folderHeaderOf relativePath) #
             (case entries of None \<Rightarrow> [] | Some files \<Rightarrow> unitSizes cx filePath files)
         | RegularFile (Some buf) \<Rightarrow>
             [if isBinaryFile buf (path_string filePath)
              then byteLength (binaryNoteOf (fileHeaderOf relativePath))
              else byteLength (fileHeaderOf relativePath) + byteLength (toString_utf8 buf)]
         | _ \<Rightarrow> []) @
     unitSizes cx dirPath rest"
  by pat_completeness auto
termination
  by (relation "measure (\<lambda>(cx, dirPath, files). size_list (size_prod (\<lambda>_. 0) size) files)") auto

definition largestUnit :: "walk_ctx \<Rightarrow> path \<Rightarrow> (string \<times> fsnode) list \<Rightarrow> nat" where
  "largestUnit cx dirPath files = fold max (unitSizes cx dirPath files) 0"

section \<open>The binary detector\<close>

lemma countNonPrintable_none:
  "sampleSize \<le> length buf \<Longrightarrow> \<forall>c \<in> set buf. \<not> nonPrintableByte c \<Longrightarrow>
   countNonPrintable buf sampleSize i k = k"
proof (induction buf sampleSize i k rule: countNonPrintable.induct)
  case (1 buf sampleSize i nonPrintable)
  show ?case
  proof (cases "i < sampleSize")
    case True
    with "1.prems" have "buf ! i \<in> set buf" by simp
    with "1.prems" have np: "\<not> nonPrintableByte (buf ! i)" by blast
    from "1.IH"[OF True] "1.prems" np True show ?thesis
      by (subst countNonPrintable.simps) simp
  next
    case False
    then show ?thesis by (subst countNonPrintable.simps) simp
  qed
qed

lemma printable_not_nonPrintable: "printableAsciiText c \<Longrightarrow> \<not> nonPrintableByte c"
  by (auto simp: printableAsciiText_def nonPrintableByte_def)

lemma printable_not_null: "printableAsciiText c \<Longrightarrow> c \<noteq> char_of (0::nat)"
  by (auto simp: printableAsciiText_def)

lemma js_greater_zero: "\<not> js_greater (js_divide 0 n) (3 / 10)"
  by (simp add: js_divide_def)

lemma isBinaryFile_text:
  assumes "\<forall>c \<in> set buf. printableAsciiText c"
    and "toLowerCase (extname filePath) \<notin> set binaryExts"
  shows "\<not> isBinaryFile buf filePath"
proof -
  have "char_of (0::nat) \<notin> set buf"
    using assms(1) printable_not_null by blast
  moreover have "countNonPrintable buf (min (length buf) 8000) 0 0 = 0"
    using assms(1) by (intro countNonPrintable_none) (auto dest: printable_not_nonPrintable)
  ultimately show ?thesis
    using assms(2) by (simp add: isBinaryFile_def Let_def js_greater_zero)
qed









section \<open>The entry point\<close>

lemma lower_char_y: "lower_char c = CHR ''y'' \<longleftrightarrow> c = CHR ''y'' \<or> c = CHR ''Y''"
proof
  assume h: "lower_char c = CHR ''y''"
  show "c = CHR ''y'' \<or> c = CHR ''Y''"
  proof (cases "65 \<le> (of_char c :: nat) \<and> (of_char c :: nat) \<le> 90")
    case True
    with h have "char_of ((of_char c :: nat) + 32) = CHR ''y''"
      by (simp add: lower_char_def)
    then have "(of_char (char_of ((of_char c :: nat) + 32) :: char) :: nat) = of_char CHR ''y''"
      by simp
    with True have "(of_char c :: nat) = 89"
      by (simp add: of_char_of)
    then have "char_of (of_char c :: nat) = (char_of (89 :: nat) :: char)"
      by simp
    moreover have "char_of (89 :: nat) = CHR ''Y''"
      by code_simp
    ultimately show ?thesis by simp
  next
    case False
    with h show ?thesis by (simp add: lower_char_def)
  qed
next
  have "lower_char CHR ''y'' = CHR ''y''" "lower_char CHR ''Y'' = CHR ''y''"
    by code_simp+
  moreover assume "c = CHR ''y'' \<or> c = CHR ''Y''"
  ultimately show "lower_char c = CHR ''y''"
    by auto
qed

lemma toLowerCase_y: "toLowerCase a = ''y'' \<longleftrightarrow> a = ''y'' \<or> a = ''Y''"
proof -
  have "toLowerCase a = ''y'' \<longleftrightarrow> (\<exists>c. a = [c] \<and> lower_char c = CHR ''y'')"
    by (cases a) (auto simp: toLowerCase_def)
  then show ?thesis
    by (auto simp: lower_char_y)
qed

lemma isGitRepo_no_marker:
  "\<forall>p. \<not> existsSync fs p \<Longrightarrow> isGitRepo fs current = None"
  by (induction fs current rule: isGitRepo.induct)
     (subst isGitRepo.simps, simp add: git_marker_here_def)

text \<open>
  Claim C8. When no repository is found and the line typed at the prompt is neither
  \<open>y\<close> nor \<open>Y\<close>, the run prints the cancellation notice and nothing else, never calls
  the clipboard, and leaves the module variables as they were at the start: nothing was
  walked and no text was produced. The outcome is the same whatever the tree below the
  invocation directory holds.
\<close>

theorem C8_declined_prompt_cancels:
  assumes "isGitRepo w (process_cwd w) = None"
    and "answer w \<noteq> ''y''" and "answer w \<noteq> ''Y''"
  shows "main matcher w =
           \<lparr>prompted = True, printed = [Cancelled], written = None, vars = initial_vars\<rparr>"
  using assms by (simp add: main_def toLowerCase_y)

theorem C8_declined_prompt_cancels_witness:
  "main (\<lambda>rules p. False) world_no_repo =
     \<lparr>prompted = True, printed = [Cancelled], written = None, vars = initial_vars\<rparr>"
proof -
  have "isGitRepo world_no_repo (process_cwd world_no_repo) = None"
    by (rule isGitRepo_no_marker) (simp add: world_no_repo_def)
  moreover have "answer world_no_repo \<noteq> ''y''" "answer world_no_repo \<noteq> ''Y''"
    by (simp_all add: world_no_repo_def)
  ultimately show ?thesis
    by (rule C8_declined_prompt_cancels)
qed

section \<open>The walker, step by step\<close>

lemma processEntries_stop:
  "limitReached s \<Longrightarrow> processEntries cx dirPath files out0 s = (out0, s)"
  by (cases files) auto

lemma processDirectory_stop:
  "limitReached s \<Longrightarrow> processDirectory cx dirPath entries s = ([], s)"
  by (cases entries) (simp_all add: processEntries_stop)

lemma processEntries_skip:
  "\<not> limitReached s \<Longrightarrow> entrySkipped cx dirPath name node \<Longrightarrow>
   processEntries cx dirPath ((name, node) # rest) out0 s = processEntries cx dirPath rest out0 s"
  by (auto simp: entrySkipped_def Let_def split: fsnode.splits)

lemma processEntries_dir:
  "\<not> limitReached s \<Longrightarrow> \<not> entrySkipped cx dirPath name (Directory entries) \<Longrightarrow>
   processEntries cx dirPath ((name, Directory entries) # rest) out0 s =
     (let folderHeader = folderHeaderOf (path_relative (cwd cx) (path_join dirPath name))
      in if currentSize s + js_length folderHeader > MAX_SIZE
         then (out0, s\<lparr>limitReached := True\<rparr>)
         else
           let r = processDirectory cx (path_join dirPath name) entries s
           in if fst r \<noteq> [] then
                processEntries cx dirPath rest (out0 @ folderHeader @ fst r)
                  ((snd r)\<lparr>currentSize := currentSize (snd r) + byteLength folderHeader\<rparr>)
              else processEntries cx dirPath rest out0 (snd r))"
  by (auto simp: entrySkipped_def Let_def split: prod.splits)

lemma processEntries_file:
  "\<not> limitReached s \<Longrightarrow> \<not> entrySkipped cx dirPath name (RegularFile rd) \<Longrightarrow>
   processEntries cx dirPath ((name, RegularFile rd) # rest) out0 s =
     (case processFile (path_string (path_join dirPath name))
             (path_relative (cwd cx) (path_join dirPath name)) rd out0 s of
        Return out1 s1 \<Rightarrow> (out1, s1)
      | Continue out1 s1 \<Rightarrow> processEntries cx dirPath rest out1 s1)"
  by (auto simp: entrySkipped_def Let_def)

lemma entry_cases:
  obtains (skipped) "entrySkipped cx dirPath name node"
  | (dir) entries where "node = Directory entries" "\<not> entrySkipped cx dirPath name node"
  | (regular) rd where "node = RegularFile rd" "\<not> entrySkipped cx dirPath name node"
  by (cases node) (auto simp: entrySkipped_def)

lemma walk_induct [case_names Unreadable Listed Done Stop Skip DirLimit Dir FileReturn FileContinue]:
  assumes "\<And>cx dirPath s. P cx dirPath None s"
    and "\<And>cx dirPath files s. Q cx dirPath files [] s \<Longrightarrow> P cx dirPath (Some files) s"
    and "\<And>cx dirPath out0 s. Q cx dirPath [] out0 s"
    and "\<And>cx dirPath name node rest out0 s.
          limitReached s \<Longrightarrow> Q cx dirPath ((name, node) # rest) out0 s"
    and "\<And>cx dirPath name node rest out0 s.
          \<not> limitReached s \<Longrightarrow> entrySkipped cx dirPath name node \<Longrightarrow>
          Q cx dirPath rest out0 s \<Longrightarrow> Q cx dirPath ((name, node) # rest) out0 s"
    and "\<And>cx dirPath name entries rest out0 s.
          \<not> limitReached s \<Longrightarrow> \<not> entrySkipped cx dirPath name (Directory entries) \<Longrightarrow>
          currentSize s + js_length (folderHeaderOf (path_relative (cwd cx) (path_join dirPath name)))
            > MAX_SIZE \<Longrightarrow>
          Q cx dirPath ((name, Directory entries) # rest) out0 s"
    and "\<And>cx dirPath name entries rest out0 s folderOutput s1.
          \<not> limitReached s \<Longrightarrow> \<not> entrySkipped cx dirPath name (Directory entries) \<Longrightarrow>
          currentSize s + js_length (folderHeaderOf (path_relative (cwd cx) (path_join dirPath name)))
            \<le> MAX_SIZE \<Longrightarrow>
          processDirectory cx (path_join dirPath name) entries s = (folderOutput, s1) \<Longrightarrow>
          P cx (path_join dirPath name) entries s \<Longrightarrow>
          Q cx dirPath rest
            (if folderOutput \<noteq> [] then
               out0 @ folderHeaderOf (path_relative (cwd cx) (path_join dirPath name)) @ folderOutput
             else out0)
            (if folderOutput \<noteq> [] then
               s1\<lparr>currentSize := currentSize s1 +
                  byteLength (folderHeaderOf (path_relative (cwd cx) (path_join dirPath name)))\<rparr>
             else s1) \<Longrightarrow>
          Q cx dirPath ((name, Directory entries) # rest) out0 s"
    and "\<And>cx dirPath name rd rest out0 s out1 s1.
          \<not> limitReached s \<Longrightarrow> \<not> entrySkipped cx dirPath name (RegularFile rd) \<Longrightarrow>
          processFile (path_string (path_join dirPath name))
             (path_relative (cwd cx) (path_join dirPath name)) rd out0 s = Return out1 s1 \<Longrightarrow>
          Q cx dirPath ((name, RegularFile rd) # rest) out0 s"
    and "\<And>cx dirPath name rd rest out0 s out1 s1.
          \<not> limitReached s \<Longrightarrow> \<not> entrySkipped cx dirPath name (RegularFile rd) \<Longrightarrow>
          processFile (path_string (path_join dirPath name))
             (path_relative (cwd cx) (path_join dirPath name)) rd out0 s = Continue out1 s1 \<Longrightarrow>
          Q cx dirPath rest out1 s1 \<Longrightarrow>
          Q cx dirPath ((name, RegularFile rd) # rest) out0 s"
  shows "P cx dirPath entries s" and "Q cx dirPath files out0 s"
proof (induction cx dirPath entries s and cx dirPath files out0 s
    rule: processDirectory_processEntries.induct)
  case (1 cx dirPath s)
  show ?case by (rule assms(1))
next
  case (2 cx dirPath files s)
  then show ?case by (intro assms(2))
next
  case (3 cx dirPath out0 s)
  show ?case by (rule assms(3))
next
  case (4 cx dirPath name node rest out0 s)
  show ?case
  proof (cases "limitReached s")
    case True
    then show ?thesis by (rule assms(4))
  next
    case live: False
    show ?thesis
    proof (cases rule: entry_cases[of cx dirPath name node])
      case skipped
      then have "Q cx dirPath rest out0 s"
        using "4.IH"(1-5,7) live 
        by (cases "dotSkipped name"; cases node) (auto simp: entrySkipped_def)
      with live skipped show ?thesis by (intro assms(5))
    next
      case (dir entries)
      then have ns: "\<not> dotSkipped name" "\<not> ig cx (path_relative (cwd cx) (path_join dirPath name))"
        by (auto simp: entrySkipped_def)
      show ?thesis
      proof (cases "currentSize s + js_length (folderHeaderOf (path_relative (cwd cx) (path_join dirPath name))) > MAX_SIZE")
        case True
        with live dir show ?thesis by (auto intro: assms(6))
      next
        case False
        obtain fo s1 where r: "processDirectory cx (path_join dirPath name) entries s = (fo, s1)"
          by (cases "processDirectory cx (path_join dirPath name) entries s")
        have p: "P cx (path_join dirPath name) entries s"
          using "4.IH"(8)[OF live refl refl ns(1) dir(1) ns(2) refl] False by simp
        have q: "Q cx dirPath rest
            (if fo \<noteq> [] then
               out0 @ folderHeaderOf (path_relative (cwd cx) (path_join dirPath name)) @ fo
             else out0)
            (if fo \<noteq> [] then
               s1\<lparr>currentSize := currentSize s1 +
                  byteLength (folderHeaderOf (path_relative (cwd cx) (path_join dirPath name)))\<rparr>
             else s1)"
          using "4.IH"(9)[OF live refl refl ns(1) dir(1) ns(2) refl _ refl r[symmetric]]
            "4.IH"(10)[OF live refl refl ns(1) dir(1) ns(2) refl _ refl r[symmetric]] False
          by (cases "fo = []") simp_all
        from live dir False r p q show ?thesis
          by (auto intro!: assms(7)[where folderOutput = fo and ?s1.0 = s1])
      qed
    next
      case (regular rd)
      then have ns: "\<not> dotSkipped name" "\<not> ig cx (path_relative (cwd cx) (path_join dirPath name))"
        by (auto simp: entrySkipped_def)
      show ?thesis
      proof (cases "processFile (path_string (path_join dirPath name))
             (path_relative (cwd cx) (path_join dirPath name)) rd out0 s")
        case (Continue out1 s1)
        have "Q cx dirPath rest out1 s1"
          using "4.IH"(6)[OF live refl refl ns(1) regular(1) ns(2) Continue] .
        with live regular Continue show ?thesis by (auto intro: assms(9))
      next
        case (Return out1 s1)
        with live regular show ?thesis by (auto intro: assms(8))
      qed
    qed
  qed
qed

section \<open>Invariants of the walk\<close>

declare processEntries.simps(2) [simp del]

lemma processFile_Return:
  "processFile filePath rel rd out0 s = Return out1 s1 \<Longrightarrow>
     out1 = out0 \<and> s1 = s\<lparr>limitReached := True\<rparr>"
  by (auto simp: processFile_def Let_def split: if_splits option.splits)

lemma processFile_Continue:
  "processFile filePath rel rd out0 s = Continue out1 s1 \<Longrightarrow>
     (\<exists>block. out1 = out0 @ block \<and> currentSize s1 = currentSize s + byteLength block) \<and>
     limitReached s1 = limitReached s \<and> currentSize s1 \<le> max (currentSize s) MAX_SIZE"
  by (auto simp: processFile_def Let_def byteLength_def split: if_splits option.splits)

lemma processEntries_dir_limit:
  "\<not> limitReached s \<Longrightarrow> \<not> entrySkipped cx dirPath name (Directory entries) \<Longrightarrow>
   currentSize s + js_length (folderHeaderOf (path_relative (cwd cx) (path_join dirPath name)))
     > MAX_SIZE \<Longrightarrow>
   processEntries cx dirPath ((name, Directory entries) # rest) out0 s =
     (out0, s\<lparr>limitReached := True\<rparr>)"
  by (simp add: processEntries_dir)

lemma processEntries_dir_fits:
  "\<not> limitReached s \<Longrightarrow> \<not> entrySkipped cx dirPath name (Directory entries) \<Longrightarrow>
   currentSize s + js_length (folderHeaderOf (path_relative (cwd cx) (path_join dirPath name)))
     \<le> MAX_SIZE \<Longrightarrow>
   processDirectory cx (path_join dirPath name) entries s = (folderOutput, s1) \<Longrightarrow>
   processEntries cx dirPath ((name, Directory entries) # rest) out0 s =
     processEntries cx dirPath rest
       (if folderOutput \<noteq> [] then
          out0 @ folderHeaderOf (path_relative (cwd cx) (path_join dirPath name)) @ folderOutput
        else out0)
       (if folderOutput \<noteq> [] then
          s1\<lparr>currentSize := currentSize s1 +
             byteLength (folderHeaderOf (path_relative (cwd cx) (path_join dirPath name)))\<rparr>
        else s1)"
  by (simp add: processEntries_dir Let_def)

lemma walk_size:
  "currentSize (snd (processDirectory cx dirPath entries s)) =
     currentSize s + byteLength (fst (processDirectory cx dirPath entries s))"
  "currentSize (snd (processEntries cx dirPath files out0 s)) + byteLength out0 =
     currentSize s + byteLength (fst (processEntries cx dirPath files out0 s))"
proof (induction cx dirPath entries s and cx dirPath files out0 s rule: walk_induct)
  case (Unreadable cx dirPath s)
  show ?case by (simp add: byteLength_def)
next
  case (Listed cx dirPath files s)
  then show ?case by (simp add: byteLength_def)
next
  case (Done cx dirPath out0 s)
  show ?case by simp
next
  case (Stop cx dirPath name node rest out0 s)
  then show ?case by (simp add: processEntries_stop)
next
  case (Skip cx dirPath name node rest out0 s)
  then show ?case by (simp add: processEntries_skip)
next
  case (DirLimit cx dirPath name entries rest out0 s)
  then show ?case by (simp add: processEntries_dir_limit)
next
  case (Dir cx dirPath name entries rest out0 s folderOutput s1)
  show ?case
    unfolding processEntries_dir_fits[OF Dir.hyps(1-4)]
    using Dir.IH Dir.hyps(4) by (auto simp: byteLength_def split: if_splits)
next
  case (FileReturn cx dirPath name rd rest out0 s out1 s1)
  then show ?case
    by (auto simp: processEntries_file dest: processFile_Return)
next
  case (FileContinue cx dirPath name rd rest out0 s out1 s1)
  then show ?case
    by (auto simp: processEntries_file byteLength_def dest!: processFile_Continue)
qed

lemma walk_prefix:
  "prefix out0 (fst (processEntries cx dirPath files out0 s))"
proof (induction cx dirPath files out0 s rule: walk_induct(2)[where P = "\<lambda>_ _ _ _. True"])
  case (Dir cx dirPath name entries rest out0 s folderOutput s1)
  show ?case
    unfolding processEntries_dir_fits[OF Dir.hyps(1-4)]
    using Dir.IH by (auto dest: append_prefixD split: if_splits)
next
  case (FileReturn cx dirPath name rd rest out0 s out1 s1)
  then show ?case
    by (auto simp: processEntries_file dest: processFile_Return)
next
  case (FileContinue cx dirPath name rd rest out0 s out1 s1)
  then show ?case
    by (auto simp: processEntries_file dest!: processFile_Continue dest: append_prefixD)
qed (simp_all add: processEntries_stop processEntries_skip processEntries_dir_limit)

lemma walk_flag:
  "limitReached s \<Longrightarrow> limitReached (snd (processDirectory cx dirPath entries s))"
  "limitReached s \<Longrightarrow> limitReached (snd (processEntries cx dirPath files out0 s))"
  by (simp_all add: processDirectory_stop processEntries_stop)

lemma walk_mono:
  "currentSize s \<le> currentSize (snd (processDirectory cx dirPath entries s))"
  "currentSize s \<le> currentSize (snd (processEntries cx dirPath files out0 s))"
proof -
  show "currentSize s \<le> currentSize (snd (processDirectory cx dirPath entries s))"
    by (simp add: walk_size(1))
  have "length out0 \<le> length (fst (processEntries cx dirPath files out0 s))"
    using walk_prefix[of out0 cx dirPath files s] by (auto simp: prefix_def)
  then show "currentSize s \<le> currentSize (snd (processEntries cx dirPath files out0 s))"
    using walk_size(2)[of cx dirPath files out0 s] by (simp add: byteLength_def)
qed

section \<open>Evaluating the walk on concrete trees\<close>

lemmas walk_eval =
  processEntries.simps(2) processFile_def Let_def path_join_def path_relative_def
  path_string_def dotSkipped_def startsWith_def folderHeaderOf_def fileHeaderOf_def
  binaryNoteOf_def byteLength_def js_length_def utf16_units_def MAX_SIZE_def

lemma tiny_world_fields:
  "process_cwd tiny_world = [''w'']" "answer tiny_world = ''y''"
  "clipboard_write tiny_world t = None"
  by (simp_all add: tiny_world_def)

lemma tiny_world_no_repo: "isGitRepo tiny_world [''w''] = None"
  by (rule isGitRepo_no_marker) (simp add: tiny_world_def)

lemma tiny_world_rules: "loadGitIgnoreRules tiny_world [''w''] = []"
  by code_simp

lemma tiny_world_walk:
  "processDirectory \<lparr>cwd = [''w''], ig = (\<lambda>p. False)\<rparr> [''w''] (readdir_tree tiny_world)
     \<lparr>currentSize = 26, limitReached = False\<rparr> =
   (''\<newline>--- File: a.txt ---\<newline>hello'' @
    ''\<newline>--- Folder: sub ---\<newline>'' @
    ''\<newline>--- File: sub/c.txt ---\<newline>world'', \<lparr>currentSize = 103, limitReached = False\<rparr>)"
proof -
  have nb: "\<not> isBinaryFile ''hello'' ''/w/a.txt''" "\<not> isBinaryFile ''world'' ''/w/sub/c.txt''"
    by code_simp+
  have dec: "toString_utf8 ''hello'' = ''hello''" "toString_utf8 ''world'' = ''world''"
    by code_simp+
  show ?thesis
    using nb dec by (simp add: tiny_world_def walk_eval)
qed

lemma tiny_world_run:
  "main (\<lambda>rules p. False) tiny_world =
    \<lparr>prompted = True, printed = [CopiedNotice],
     written = Some (''--- Root Directory: w ---\<newline>'' @
       ''\<newline>--- File: a.txt ---\<newline>hello'' @
       ''\<newline>--- Folder: sub ---\<newline>'' @
       ''\<newline>--- File: sub/c.txt ---\<newline>world''),
     vars = \<lparr>currentSize = 103, limitReached = False\<rparr>\<rparr>"
proof -
  have header: "rootHeaderOf (path_basename [''w'']) = ''--- Root Directory: w ---\<newline>''"
    by (simp add: rootHeaderOf_def path_basename_def)
  have size: "byteLength ''--- Root Directory: w ---\<newline>'' = 26"
    by (simp add: byteLength_def)
  show ?thesis
    by (simp add: main_def main_walk_def Let_def tiny_world_fields tiny_world_no_repo
        tiny_world_rules toLowerCase_y initial_vars_def header size tiny_world_walk)
qed

lemma utf8_decode_ascii:
  "\<forall>c \<in> set buf. (of_char c :: nat) < 128 \<Longrightarrow> utf8_decode 0 pending lower upper buf = buf"
  by (induction buf arbitrary: pending lower upper) simp_all

lemma toString_utf8_ascii:
  "\<forall>c \<in> set buf. (of_char c :: nat) < 128 \<Longrightarrow> toString_utf8 buf = buf"
  by (simp add: toString_utf8_def utf8_decode_ascii)

lemma big_text_facts:
  "\<not> isBinaryFile big_text ''/w/sub/big.txt''" "toString_utf8 big_text = big_text"
  "length big_text = 5242880"
proof -
  have "toLowerCase (extname ''/w/sub/big.txt'') \<notin> set binaryExts"
    by code_simp
  then show "\<not> isBinaryFile big_text ''/w/sub/big.txt''"
    by (intro isBinaryFile_text) (simp_all add: big_text_def printableAsciiText_def)
  show "toString_utf8 big_text = big_text"
    by (rule toString_utf8_ascii) (simp add: big_text_def)
  show "length big_text = 5242880"
    by (simp add: big_text_def)
qed

lemma small_text_facts:
  "\<not> isBinaryFile ''hi'' ''/w/sub/a.txt''" "toString_utf8 ''hi'' = ''hi''"
  by code_simp+

lemma sub_walk:
  "processDirectory cx_plain [''w'', ''sub''] (Some sub_entries) after_root_header =
     (''\<newline>--- File: sub/a.txt ---\<newline>hi'', \<lparr>currentSize = 53, limitReached = True\<rparr>)"
  using big_text_facts small_text_facts
  by (simp add: sub_entries_def cx_plain_def after_root_header_def walk_eval)

lemma root_walk:
  "processDirectory cx_plain [''w''] (Some [(''sub'', Directory (Some sub_entries))]) after_root_header =
     (''\<newline>--- Folder: sub ---\<newline>'' @ ''\<newline>--- File: sub/a.txt ---\<newline>hi'',
      \<lparr>currentSize = 74, limitReached = True\<rparr>)"
proof -
  have "processDirectory \<lparr>cwd = [''w''], ig = (\<lambda>p. False)\<rparr> [''w'', ''sub''] (Some sub_entries)
     \<lparr>currentSize = 26, limitReached = False\<rparr> =
     (''\<newline>--- File: sub/a.txt ---\<newline>hi'', \<lparr>currentSize = 53, limitReached = True\<rparr>)"
    using sub_walk by (simp add: cx_plain_def after_root_header_def)
  then show ?thesis
    by (simp add: cx_plain_def after_root_header_def walk_eval)
qed

section \<open>The byte counter\<close>

lemma main_counts_written:
  "currentSize (vars (main matcher w)) =
     (case written (main matcher w) of None \<Rightarrow> 0 | Some t \<Rightarrow> byteLength t)"
proof -
  have walk: "currentSize (vars (main_walk matcher w g)) =
     (case written (main_walk matcher w g) of None \<Rightarrow> 0 | Some t \<Rightarrow> byteLength t)" for g
    using walk_size(1)[of "\<lparr>cwd = process_cwd w, ig = matcher (loadGitIgnoreRules w
              (case g of Some r \<Rightarrow> r | None \<Rightarrow> process_cwd w))\<rparr>" "process_cwd w" "readdir_tree w"
            "initial_vars\<lparr>currentSize := currentSize initial_vars +
               byteLength (rootHeaderOf (path_basename (process_cwd w)))\<rparr>"]
    by (auto simp: main_walk_def Let_def initial_vars_def byteLength_def
        split: prod.splits option.splits)
  show ?thesis
    by (simp add: main_def Let_def walk) (simp add: initial_vars_def)
qed

text \<open>
  Claim C9. The counter \<^verbatim>\<open>currentSize\<close> grows by exactly the UTF-8 byte length of the
  text a call returns: after \<^verbatim>\<open>processDirectory\<close> it is the counter before plus the bytes
  of the returned string, and after the loop the growth of the counter is the growth of
  the local buffer. For a run of \<^verbatim>\<open>main\<close>, which starts at zero and counts the root
  header, the counter at the end is the byte length of the text handed to the clipboard
  (truncated or not), and zero when nothing is written.
\<close>

theorem C9_counter_equals_committed_bytes:
  "currentSize (snd (processDirectory cx dirPath entries s)) =
     currentSize s + byteLength (fst (processDirectory cx dirPath entries s)) \<and>
   currentSize (snd (processEntries cx dirPath files out0 s)) + byteLength out0 =
     currentSize s + byteLength (fst (processEntries cx dirPath files out0 s)) \<and>
   currentSize (vars (main matcher w)) =
     (case written (main matcher w) of None \<Rightarrow> 0 | Some t \<Rightarrow> byteLength t)"
  using walk_size main_counts_written by blast

theorem C9_counter_equals_committed_bytes_witness:
  "currentSize (vars (main (\<lambda>rules p. False) tiny_world)) = 103 \<and>
   written (main (\<lambda>rules p. False) tiny_world) =
     Some (''--- Root Directory: w ---\<newline>'' @
       ''\<newline>--- File: a.txt ---\<newline>hello'' @
       ''\<newline>--- Folder: sub ---\<newline>'' @
       ''\<newline>--- File: sub/c.txt ---\<newline>world'') \<and>
   byteLength (''--- Root Directory: w ---\<newline>'' @
       ''\<newline>--- File: a.txt ---\<newline>hello'' @
       ''\<newline>--- Folder: sub ---\<newline>'' @
       ''\<newline>--- File: sub/c.txt ---\<newline>world'') = 103"
  using C9_counter_equals_committed_bytes[where matcher = "\<lambda>rules p. False" and w = tiny_world]
    tiny_world_run
  by (simp add: byteLength_def)

section \<open>Folder headers and oversized files\<close>

lemma processFile_unreadable:
  "processFile filePath rel None out0 s = Continue out1 s1 \<Longrightarrow> out1 = out0 \<and> s1 = s"
  by (auto simp: processFile_def Let_def split: if_splits)

lemma filtered_walk_empty:
  "emptyAfterFiltering cx dirPath entries \<Longrightarrow> fst (processDirectory cx dirPath entries s) = []"
  "allFiltered cx dirPath files \<Longrightarrow> fst (processEntries cx dirPath files out0 s) = out0"
proof (induction cx dirPath entries s and cx dirPath files out0 s rule: walk_induct)
  case (Unreadable cx dirPath s)
  show ?case by simp
next
  case (Listed cx dirPath files s)
  then show ?case by simp
next
  case (Done cx dirPath out0 s)
  show ?case by simp
next
  case (Stop cx dirPath name node rest out0 s)
  then show ?case by (simp add: processEntries_stop)
next
  case (Skip cx dirPath name node rest out0 s)
  then show ?case by (simp add: processEntries_skip)
next
  case (DirLimit cx dirPath name entries rest out0 s)
  then show ?case by (simp add: processEntries_dir_limit)
next
  case (Dir cx dirPath name entries rest out0 s folderOutput s1)
  from Dir.prems Dir.hyps(2)
  have "emptyAfterFiltering cx (path_join dirPath name) entries" "allFiltered cx dirPath rest"
    by simp_all
  with Dir.IH Dir.hyps(4) have "folderOutput = []"
    and "fst (processEntries cx dirPath rest out0 s1) = out0"
    by auto
  then show ?case
    unfolding processEntries_dir_fits[OF Dir.hyps(1-4)] by simp
next
  case (FileReturn cx dirPath name rd rest out0 s out1 s1)
  then show ?case
    by (auto simp: processEntries_file dest: processFile_Return)
next
  case (FileContinue cx dirPath name rd rest out0 s out1 s1)
  from FileContinue.prems FileContinue.hyps(2) have "rd = None" "allFiltered cx dirPath rest"
    by (auto split: option.splits)
  with FileContinue.hyps(3) FileContinue.IH show ?case
    using FileContinue.hyps(1,2) by (auto simp: processEntries_file dest: processFile_unreadable)
qed

text \<open>
  Claim C7. For a directory the walker enters (the loop is live, the entry is not passed
  over, and the header check before the descent passes), the folder header is appended,
  followed by the subtree's output, exactly when the recursive call returned a
  non-empty string; otherwise the buffer is left as it is. A directory that is empty
  after filtering returns the empty string and leaves the counter unchanged, so its
  header is suppressed.
\<close>

theorem C7_folder_header_iff_nonempty:
  assumes "\<not> limitReached s"
    and "\<not> entrySkipped cx dirPath name (Directory entries)"
    and "currentSize s + js_length (folderHeaderOf (path_relative (cwd cx) (path_join dirPath name)))
           \<le> MAX_SIZE"
  shows "processEntries cx dirPath ((name, Directory entries) # rest) out0 s =
           (let folderHeader = folderHeaderOf (path_relative (cwd cx) (path_join dirPath name));
                r = processDirectory cx (path_join dirPath name) entries s
            in if fst r \<noteq> [] then
                 processEntries cx dirPath rest (out0 @ folderHeader @ fst r)
                   ((snd r)\<lparr>currentSize := currentSize (snd r) + byteLength folderHeader\<rparr>)
               else processEntries cx dirPath rest out0 (snd r)) \<and>
         (emptyAfterFiltering cx (path_join dirPath name) entries \<longrightarrow>
            fst (processDirectory cx (path_join dirPath name) entries s) = [] \<and>
            currentSize (snd (processDirectory cx (path_join dirPath name) entries s)) = currentSize s \<and>
            processEntries cx dirPath ((name, Directory entries) # rest) out0 s =
              processEntries cx dirPath rest out0
                (snd (processDirectory cx (path_join dirPath name) entries s)))"
proof -
  have step: "processEntries cx dirPath ((name, Directory entries) # rest) out0 s =
           (let folderHeader = folderHeaderOf (path_relative (cwd cx) (path_join dirPath name));
                r = processDirectory cx (path_join dirPath name) entries s
            in if fst r \<noteq> [] then
                 processEntries cx dirPath rest (out0 @ folderHeader @ fst r)
                   ((snd r)\<lparr>currentSize := currentSize (snd r) + byteLength folderHeader\<rparr>)
               else processEntries cx dirPath rest out0 (snd r))"
    using assms by (simp add: processEntries_dir Let_def)
  moreover have "fst (processDirectory cx (path_join dirPath name) entries s) = [] \<and>
            currentSize (snd (processDirectory cx (path_join dirPath name) entries s)) = currentSize s \<and>
            processEntries cx dirPath ((name, Directory entries) # rest) out0 s =
              processEntries cx dirPath rest out0
                (snd (processDirectory cx (path_join dirPath name) entries s))"
    if "emptyAfterFiltering cx (path_join dirPath name) entries"
    using filtered_walk_empty(1)[OF that, of s] walk_size(1)[of cx "path_join dirPath name" entries s] step
    by (simp add: Let_def byteLength_def)
  ultimately show ?thesis by blast
qed

theorem C7_folder_header_iff_nonempty_witness:
  "processEntries cx_plain [''w'']
     [(''sub'', Directory (Some [(''c.txt'', RegularFile (Some ''world''))]))] [] after_root_header =
     (''\<newline>--- Folder: sub ---\<newline>'' @ ''\<newline>--- File: sub/c.txt ---\<newline>world'',
      \<lparr>currentSize = 77, limitReached = False\<rparr>) \<and>
   processEntries cx_plain [''w'']
     [(''cache'', Directory (Some [(''.env'', RegularFile (Some ''x'')), (''link'', Symlink)]))] []
     after_root_header = ([], after_root_header)"
proof -
  have live: "\<not> limitReached after_root_header"
    by (simp add: after_root_header_def)
  have kept: "\<not> entrySkipped cx_plain [''w''] ''sub'' (Directory es)"
    "\<not> entrySkipped cx_plain [''w''] ''cache'' (Directory es)" for es
    by (simp_all add: entrySkipped_def dotSkipped_def startsWith_def cx_plain_def)
  have fits: "currentSize after_root_header +
      js_length (folderHeaderOf (path_relative (cwd cx_plain) (path_join [''w''] ''sub''))) \<le> MAX_SIZE"
    "currentSize after_root_header +
      js_length (folderHeaderOf (path_relative (cwd cx_plain) (path_join [''w''] ''cache''))) \<le> MAX_SIZE"
    by (simp_all add: after_root_header_def cx_plain_def walk_eval)
  have inner: "processDirectory cx_plain (path_join [''w''] ''sub'')
      (Some [(''c.txt'', RegularFile (Some ''world''))]) after_root_header =
      (''\<newline>--- File: sub/c.txt ---\<newline>world'', \<lparr>currentSize = 56, limitReached = False\<rparr>)"
  proof -
    have "\<not> isBinaryFile ''world'' ''/w/sub/c.txt''" "toString_utf8 ''world'' = ''world''"
      by code_simp+
    then show ?thesis
      by (simp add: after_root_header_def cx_plain_def walk_eval)
  qed
  have filtered: "emptyAfterFiltering cx_plain (path_join [''w''] ''cache'')
      (Some [(''.env'', RegularFile (Some ''x'')), (''link'', Symlink)])"
    by (simp add: entrySkipped_def dotSkipped_def startsWith_def)
  have inner_empty: "snd (processDirectory cx_plain (path_join [''w''] ''cache'')
      (Some [(''.env'', RegularFile (Some ''x'')), (''link'', Symlink)]) after_root_header) =
      after_root_header"
    by (simp add: after_root_header_def cx_plain_def walk_eval)
  show ?thesis
    using C7_folder_header_iff_nonempty[OF live kept(1) fits(1), of "Some [(''c.txt'', RegularFile (Some ''world''))]" "[]" "[]"]
      C7_folder_header_iff_nonempty[OF live kept(2) fits(2), of "Some [(''.env'', RegularFile (Some ''x'')), (''link'', Symlink)]" "[]" "[]"]
      inner filtered inner_empty
    by (simp add: Let_def folderHeaderOf_def path_relative_def path_join_def cx_plain_def byteLength_def)
qed



section \<open>After the limit is reached\<close>

text \<open>
  Claim C1, as stated, fails. In the walk of \<^verbatim>\<open>sub\<close> the 5 MiB file sets the flag; the
  call returns the block of \<^verbatim>\<open>sub/a.txt\<close> with the counter at 53 and the flag set.
  The caller, the walk of \<^verbatim>\<open>/w\<close>, then appends the folder header of \<^verbatim>\<open>sub\<close> and that
  block to its own buffer and adds the 21 bytes of the header to the counter, which
  ends at 74: bytes were appended after the flag was set.
\<close>

theorem C1_counterexample:
  "processDirectory cx_plain [''w'', ''sub''] (Some sub_entries) after_root_header =
     (''\<newline>--- File: sub/a.txt ---\<newline>hi'', \<lparr>currentSize = 53, limitReached = True\<rparr>) \<and>
   processDirectory cx_plain [''w''] (Some [(''sub'', Directory (Some sub_entries))]) after_root_header =
     (''\<newline>--- Folder: sub ---\<newline>'' @ ''\<newline>--- File: sub/a.txt ---\<newline>hi'',
      \<lparr>currentSize = 74, limitReached = True\<rparr>)"
  using sub_walk root_walk by simp

text \<open>
  Claim C1, amended. Once the flag is set, every call of \<^verbatim>\<open>processDirectory\<close> returns the
  empty string and every loop returns its buffer as it stands, with the counter and the
  flag unchanged: no directory is entered and no file header, content or binary marker
  is appended. A loop never shortens its buffer. The one append left is made by the
  directories being walked when the flag was set: when the recursive call comes back
  with the flag set, the caller appends its folder header and the subtree's output (and
  counts the header) if that output is non-empty, and returns.
\<close>

theorem C1_limit_stops_the_walk:
  "(limitReached s \<longrightarrow>
      processDirectory cx dirPath entries s = ([], s) \<and>
      processEntries cx dirPath files out0 s = (out0, s)) \<and>
   prefix out0 (fst (processEntries cx dirPath files out0 s)) \<and>
   (\<not> limitReached s \<and> \<not> entrySkipped cx dirPath name (Directory entries) \<and>
    currentSize s + js_length (folderHeaderOf (path_relative (cwd cx) (path_join dirPath name)))
      \<le> MAX_SIZE \<and>
    limitReached (snd (processDirectory cx (path_join dirPath name) entries s)) \<longrightarrow>
      processEntries cx dirPath ((name, Directory entries) # rest) out0 s =
        (let folderHeader = folderHeaderOf (path_relative (cwd cx) (path_join dirPath name));
             r = processDirectory cx (path_join dirPath name) entries s
         in if fst r \<noteq> [] then
              (out0 @ folderHeader @ fst r,
               (snd r)\<lparr>currentSize := currentSize (snd r) + byteLength folderHeader\<rparr>)
            else (out0, snd r)))"
  by (auto simp: processDirectory_stop processEntries_stop walk_prefix processEntries_dir Let_def)

theorem C1_limit_stops_the_walk_witness:
  "processDirectory cx_plain [''w'', ''later''] (Some [(''z.txt'', RegularFile (Some ''hi''))])
     \<lparr>currentSize = 74, limitReached = True\<rparr> = ([], \<lparr>currentSize = 74, limitReached = True\<rparr>) \<and>
   processEntries cx_plain [''w''] [(''z.txt'', RegularFile (Some ''hi''))] ''kept''
     \<lparr>currentSize = 74, limitReached = True\<rparr> = (''kept'', \<lparr>currentSize = 74, limitReached = True\<rparr>) \<and>
   processEntries cx_plain [''w''] [(''sub'', Directory (Some sub_entries))] [] after_root_header =
     (''\<newline>--- Folder: sub ---\<newline>'' @ ''\<newline>--- File: sub/a.txt ---\<newline>hi'',
      \<lparr>currentSize = 74, limitReached = True\<rparr>)"
proof -
  have set: "limitReached \<lparr>currentSize = 74, limitReached = True\<rparr>"
    by simp
  have live: "\<not> limitReached after_root_header"
    by (simp add: after_root_header_def)
  have kept: "\<not> entrySkipped cx_plain [''w''] ''sub'' (Directory (Some sub_entries))"
    by (simp add: entrySkipped_def dotSkipped_def startsWith_def cx_plain_def)
  have fits: "currentSize after_root_header +
      js_length (folderHeaderOf (path_relative (cwd cx_plain) (path_join [''w''] ''sub''))) \<le> MAX_SIZE"
    by (simp add: after_root_header_def cx_plain_def walk_eval)
  have inner: "processDirectory cx_plain (path_join [''w''] ''sub'') (Some sub_entries) after_root_header =
     (''\<newline>--- File: sub/a.txt ---\<newline>hi'', \<lparr>currentSize = 53, limitReached = True\<rparr>)"
    using sub_walk by (simp add: path_join_def)
  show ?thesis
    using C1_limit_stops_the_walk[of "\<lparr>currentSize = 74, limitReached = True\<rparr>" cx_plain
        "[''w'', ''later'']" "Some [(''z.txt'', RegularFile (Some ''hi''))]"
        "[(''z.txt'', RegularFile (Some ''hi''))]" "''kept''"]
      C1_limit_stops_the_walk[of "\<lparr>currentSize = 74, limitReached = True\<rparr>" cx_plain
        "[''w'']" "Some [(''z.txt'', RegularFile (Some ''hi''))]"
        "[(''z.txt'', RegularFile (Some ''hi''))]" "''kept''"]
      C1_limit_stops_the_walk[of after_root_header cx_plain "[''w'']" "Some sub_entries" "[]" "[]"
        "''sub''" "[]"]
      set live kept fits inner
    by (simp add: Let_def folderHeaderOf_def path_relative_def path_join_def cx_plain_def byteLength_def)
qed

section \<open>The repository locator\<close>

lemma path_string_not_root:
  "p \<noteq> [] \<Longrightarrow> [] \<notin> set p \<Longrightarrow> path_string p \<noteq> path_root"
  by (cases p; cases "hd p") (auto simp: path_string_def path_root_def)

lemma isGitRepo_root: "isGitRepo fs [] = None"
  by (subst isGitRepo.simps) (simp add: path_string_def path_root_def)

lemma isGitRepo_snoc:
  "x \<noteq> [] \<Longrightarrow> [] \<notin> set xs \<Longrightarrow>
   isGitRepo fs (xs @ [x]) =
     (if git_marker_here fs (xs @ [x]) then Some (xs @ [x]) else isGitRepo fs xs)"
  using path_string_not_root[of "xs @ [x]"]
  by (subst isGitRepo.simps) (simp add: path_dirname_def)

lemma ancestors_snoc:
  "ancestors_below_root (xs @ [x]) = (xs @ [x]) # ancestors_below_root xs"
  by (cases "prefixes xs") (simp_all add: ancestors_below_root_def)

lemma isGitRepo_nearest:
  "[] \<notin> set dir \<Longrightarrow> isGitRepo fs dir = nearest_marker fs dir"
proof (induction dir rule: rev_induct)
  case Nil
  show ?case by (simp add: isGitRepo_root nearest_marker_def ancestors_below_root_def)
next
  case (snoc x xs)
  then have parts: "x \<noteq> []" "[] \<notin> set xs"
    by auto
  with snoc.IH have "isGitRepo fs xs = nearest_marker fs xs"
    by simp
  with parts show ?case
    by (simp add: isGitRepo_snoc nearest_marker_def ancestors_snoc)
qed

text \<open>
  Claim C2, as stated, fails. Started in \<^verbatim>\<open>/home/proj/src\<close>, where both \<^verbatim>\<open>/home\<close> and
  \<^verbatim>\<open>/home/proj\<close> hold a \<^verbatim>\<open>.git\<close> directory, the locator returns \<^verbatim>\<open>/home/proj\<close>, the
  nearest one, while the topmost is \<^verbatim>\<open>/home\<close>. And where only the root directory holds
  a \<^verbatim>\<open>.git\<close> directory the locator reports that there is none: the loop ends when it
  reaches the root, which it does not examine.
\<close>

theorem C2_counterexample:
  "isGitRepo fs_nested [''home'', ''proj'', ''src''] = Some [''home'', ''proj''] \<and>
   topmost_marker fs_nested [''home'', ''proj'', ''src''] = Some [''home''] \<and>
   isGitRepo fs_root_only [''home''] = None \<and>
   topmost_marker fs_root_only [''home''] = Some []"
  by code_simp

text \<open>
  Claim C2, amended. For a path of non-empty components the locator returns the nearest
  directory, among the start directory and its ancestors below the file system root,
  whose \<^verbatim>\<open>.git\<close> exists and is a directory, and reports none when no such directory
  exists; the root itself is not examined. A level whose \<^verbatim>\<open>statSync\<close> throws counts as
  having no marker, and the walk goes on with the parent.
\<close>

theorem C2_locator_returns_nearest_marker:
  assumes "[] \<notin> set dir"
  shows "isGitRepo fs dir = nearest_marker fs dir \<and>
         (dir \<noteq> [] \<and> statSync_isDirectory fs (path_join dir ''.git'') = None \<longrightarrow>
            isGitRepo fs dir = isGitRepo fs (path_dirname dir))"
proof -
  have "isGitRepo fs dir = isGitRepo fs (path_dirname dir)"
    if "dir \<noteq> []" "statSync_isDirectory fs (path_join dir ''.git'') = None"
  proof -
    from that(1) obtain xs x where d: "dir = xs @ [x]"
      by (cases dir rule: rev_cases) auto
    with assms have "x \<noteq> []" "[] \<notin> set xs" by auto
    with that(2) d show ?thesis
      by (simp add: isGitRepo_snoc git_marker_here_def path_dirname_def)
  qed
  with isGitRepo_nearest[OF assms] show ?thesis by blast
qed

theorem C2_locator_returns_nearest_marker_witness:
  "isGitRepo fs_denied [''home'', ''proj'', ''src''] = Some [''home''] \<and>
   nearest_marker fs_denied [''home'', ''proj'', ''src''] = Some [''home''] \<and>
   isGitRepo fs_denied [''home'', ''proj''] = isGitRepo fs_denied [''home'']"
proof -
  have wf: "[] \<notin> set [''home'', ''proj'', ''src'']" "[] \<notin> set [''home'', ''proj'']"
    by simp_all
  have near: "nearest_marker fs_denied [''home'', ''proj'', ''src''] = Some [''home'']"
    by code_simp
  have throws: "[''home'', ''proj''] \<noteq> [] \<and>
      statSync_isDirectory fs_denied (path_join [''home'', ''proj''] ''.git'') = None"
    by (simp add: fs_denied_def path_join_def)
  have up: "path_dirname [''home'', ''proj''] = [''home'']"
    by (simp add: path_dirname_def)
  from C2_locator_returns_nearest_marker[OF wf(1), of fs_denied] near
  have "isGitRepo fs_denied [''home'', ''proj'', ''src''] = Some [''home'']"
    by simp
  moreover from C2_locator_returns_nearest_marker[OF wf(2), of fs_denied] throws
  have "isGitRepo fs_denied [''home'', ''proj''] = isGitRepo fs_denied (path_dirname [''home'', ''proj''])"
    by blast
  ultimately show ?thesis
    using near by (simp only: up simp_thms)
qed

section \<open>The ignore rule for a build directory\<close>

lemma relative_parts_below: "relative_parts c (c @ xs) = xs"
  by (induction c) simp_all

lemma path_relative_below:
  "path_relative c (path_join (c @ below) name) = join_slash (below @ [name])"
  using relative_parts_below[of c "below @ [name]"]
  by (simp add: path_relative_def path_join_def)












lemma main_walk_context:
  "main_walk matcher w (isGitRepo w (process_cwd w)) =
     (let header = rootHeaderOf (path_basename (process_cwd w));
          r = processDirectory (walkContext matcher w) (process_cwd w) (readdir_tree w)
                (initial_vars\<lparr>currentSize := currentSize initial_vars + byteLength header\<rparr>)
      in case clipboard_write w (header @ fst r) of
           None \<Rightarrow>
             \<lparr>prompted = (isGitRepo w (process_cwd w) = None),
              printed = [if limitReached (snd r) then TruncatedNotice else CopiedNotice],
              written = Some (header @ fst r), vars = snd r\<rparr>
         | Some msg \<Rightarrow>
             \<lparr>prompted = (isGitRepo w (process_cwd w) = None), printed = [ClipboardError msg],
              written = Some (header @ fst r), vars = snd r\<rparr>)"
  by (cases "processDirectory (walkContext matcher w) (process_cwd w) (readdir_tree w)
        (initial_vars\<lparr>currentSize := currentSize initial_vars +
           byteLength (rootHeaderOf (path_basename (process_cwd w)))\<rparr>)")
     (simp add: main_walk_def walkContext_def effectiveRoot_def Let_def split: option.splits)




section \<open>The byte budget on deeply nested directories\<close>

lemma length_join_slash:
  "length (join_slash cs) = sum_list (map length cs) + (length cs - 1)"
  by (induction cs rule: join_slash.induct) simp_all

lemma js_length_ascii:
  "\<forall>c \<in> set s. (of_char c :: nat) < 128 \<Longrightarrow> js_length s = length s"
  by (induction s) (simp_all add: js_length_def utf16_units_def)

lemma join_slash_ascii:
  "\<forall>c \<in> set cs. \<forall>ch \<in> set c. (of_char ch :: nat) < 128 \<Longrightarrow>
   \<forall>ch \<in> set (join_slash cs). (of_char ch :: nat) < 128"
  by (induction cs rule: join_slash.induct) auto

lemma level_path: "replicate k ''d'' @ [''d''] = replicate (Suc k) ''d''"
  by (simp add: replicate_append_same)

lemma level_relative:
  "path_relative [''w''] (path_join (''w'' # replicate k ''d'') name) =
     join_slash (replicate k ''d'' @ [name])"
  using path_relative_below[of "[''w'']" "replicate k ''d''" name] by simp

lemma level_relative_length:
  "length (join_slash (replicate k ''d'' @ [name])) = 2 * k + length name"
  by (simp add: length_join_slash sum_list_replicate)

lemma level_relative_units:
  "\<forall>ch \<in> set name. (of_char ch :: nat) < 128 \<Longrightarrow>
   js_length (join_slash (replicate k ''d'' @ [name])) = 2 * k + length name"
proof -
  assume a: "\<forall>ch \<in> set name. (of_char ch :: nat) < 128"
  have "\<forall>ch \<in> set (join_slash (replicate k ''d'' @ [name])). (of_char ch :: nat) < 128"
    by (rule join_slash_ascii) (use a in auto)
  then show ?thesis
    by (simp add: js_length_ascii level_relative_length)
qed

lemma folder_header_sizes:
  "byteLength (folderHeaderOf (join_slash (replicate k ''d'' @ [''d'']))) = 2 * k + 19"
  "js_length (folderHeaderOf (join_slash (replicate k ''d'' @ [''d'']))) = 2 * k + 19"
proof -
  show "byteLength (folderHeaderOf (join_slash (replicate k ''d'' @ [''d'']))) = 2 * k + 19"
    by (simp add: byteLength_def folderHeaderOf_def level_relative_length)
  have "js_length (folderHeaderOf (join_slash (replicate k ''d'' @ [''d'']))) =
      js_length ''\<newline>--- Folder: '' + js_length (join_slash (replicate k ''d'' @ [''d''])) +
      js_length '' ---\<newline>''"
    by (simp add: folderHeaderOf_def js_length_def)
  also have "\<dots> = 13 + (2 * k + 1) + 5"
    by (simp add: level_relative_units) (simp add: js_length_def utf16_units_def)
  finally show "js_length (folderHeaderOf (join_slash (replicate k ''d'' @ [''d'']))) = 2 * k + 19"
    by simp
qed

lemma file_header_size:
  "byteLength (fileHeaderOf (join_slash (replicate k ''d'' @ [name]))) = 2 * k + length name + 16"
  by (simp add: byteLength_def fileHeaderOf_def level_relative_length)

lemma path_string_snoc:
  "p \<noteq> [] \<Longrightarrow> path_string (p @ [c]) = path_string p @ CHR ''/'' # c"
  by (simp add: path_string_def)

lemma extname_plain_name:
  "c \<noteq> CHR ''/'' \<Longrightarrow> c \<noteq> CHR ''.'' \<Longrightarrow> extname (p @ [CHR ''/'', c]) = []"
proof -
  assume c: "c \<noteq> CHR ''/''" "c \<noteq> CHR ''.''"
  have len: "length (p @ [CHR ''/'', c]) = Suc (Suc (length p))"
    by simp
  have at: "(p @ [CHR ''/'', c]) ! Suc (length p) = c" "(p @ [CHR ''/'', c]) ! length p = CHR ''/''"
    by (simp_all add: nth_append)
  have "startDot (extname_loop (p @ [CHR ''/'', c]) (length (p @ [CHR ''/'', c])) extname_init) = - 1"
    unfolding len using c at
    by (simp add: extname_init_def extname_char_def)
  then show ?thesis
    by (simp add: extname_def Let_def)
qed

lemma half_text_facts:
  "p \<noteq> [] \<Longrightarrow> \<not> isBinaryFile half_text (path_string (p @ [''x'']))"
  "p \<noteq> [] \<Longrightarrow> \<not> isBinaryFile half_text (path_string (p @ [''y'']))"
  "toString_utf8 half_text = half_text" "length half_text = 2618000"
proof -
  have denied: "toLowerCase [] \<notin> set binaryExts"
    by (simp add: toLowerCase_def binaryExts_def)
  have printable: "\<forall>c \<in> set half_text. printableAsciiText c"
    by (simp add: half_text_def printableAsciiText_def)
  show "\<not> isBinaryFile half_text (path_string (p @ [''x'']))" if "p \<noteq> []"
    using that denied printable
    by (intro isBinaryFile_text) (simp_all add: path_string_snoc extname_plain_name)
  show "\<not> isBinaryFile half_text (path_string (p @ [''y'']))" if "p \<noteq> []"
    using that denied printable
    by (intro isBinaryFile_text) (simp_all add: path_string_snoc extname_plain_name)
  show "toString_utf8 half_text = half_text"
    by (rule toString_utf8_ascii) (simp add: half_text_def)
  show "length half_text = 2618000"
    by (simp add: half_text_def)
qed

lemma plain_not_skipped:
  "\<not> dotSkipped name \<Longrightarrow> node \<noteq> Unstattable \<Longrightarrow> node \<noteq> Symlink \<Longrightarrow> node \<noteq> Special \<Longrightarrow>
   \<not> entrySkipped cx_plain dirPath name node"
  by (simp add: entrySkipped_def cx_plain_def)

lemma leaf_walk:
  "processEntries cx_plain (''w'' # replicate 1700 ''d'') leaf_files [] after_root_header =
     (fileHeaderOf (join_slash (replicate 1700 ''d'' @ [''x''])) @ half_text @
      fileHeaderOf (join_slash (replicate 1700 ''d'' @ [''y''])) @ half_text,
      \<lparr>currentSize = 5242860, limitReached = False\<rparr>)"
proof -
  have rel: "path_relative (cwd cx_plain) (path_join (''w'' # replicate 1700 ''d'') name) =
      join_slash (replicate 1700 ''d'' @ [name])" for name
    using level_relative[of 1700 name] by (simp add: cx_plain_def)
  have nb: "\<not> isBinaryFile half_text (path_string (path_join (''w'' # replicate 1700 ''d'') ''x''))"
    "\<not> isBinaryFile half_text (path_string (path_join (''w'' # replicate 1700 ''d'') ''y''))"
    using half_text_facts(1,2)[of "''w'' # replicate 1700 ''d''"]
    by (simp_all add: path_join_def)
  have ns: "\<not> entrySkipped cx_plain (''w'' # replicate 1700 ''d'') ''x'' (RegularFile (Some half_text))"
    "\<not> entrySkipped cx_plain (''w'' # replicate 1700 ''d'') ''y'' (RegularFile (Some half_text))"
    by (simp_all add: plain_not_skipped dotSkipped_def startsWith_def)
  have fx: "processFile (path_string (path_join (''w'' # replicate 1700 ''d'') ''x''))
      (join_slash (replicate 1700 ''d'' @ [''x''])) (Some half_text) [] after_root_header =
      Continue (fileHeaderOf (join_slash (replicate 1700 ''d'' @ [''x''])) @ half_text)
        \<lparr>currentSize = 2621443, limitReached = False\<rparr>"
    by (simp add: processFile_def Let_def nb half_text_facts(3,4) file_header_size
        byteLength_def[of half_text] after_root_header_def MAX_SIZE_def)
  have fy: "processFile (path_string (path_join (''w'' # replicate 1700 ''d'') ''y''))
      (join_slash (replicate 1700 ''d'' @ [''y''])) (Some half_text) out1
      \<lparr>currentSize = 2621443, limitReached = False\<rparr> =
      Continue (out1 @ fileHeaderOf (join_slash (replicate 1700 ''d'' @ [''y''])) @ half_text)
        \<lparr>currentSize = 5242860, limitReached = False\<rparr>" for out1
    by (simp add: processFile_def Let_def nb half_text_facts(3,4) file_header_size
        byteLength_def[of half_text] MAX_SIZE_def)
  have live: "\<not> limitReached after_root_header"
    by (simp add: after_root_header_def)
  show ?thesis
    unfolding leaf_files_def
    by (simp add: processEntries_file ns rel fx fy live)
qed

lemma enter_level:
  "path_join (''w'' # replicate k ''d'') ''d'' = ''w'' # replicate (Suc k) ''d''"
  by (simp add: path_join_def replicate_append_same)

lemma level_folder_header:
  "byteLength (folderHeaderOf (path_relative (cwd cx_plain) (path_join (''w'' # replicate k ''d'') ''d''))) =
     2 * k + 19"
  "js_length (folderHeaderOf (path_relative (cwd cx_plain) (path_join (''w'' # replicate k ''d'') ''d''))) =
     2 * k + 19"
  using level_relative[of k "''d''"] folder_header_sizes[of k]
  by (simp_all add: cx_plain_def)

lemma nested_walk:
  assumes "processEntries cx_plain (''w'' # replicate (k + n) ''d'') leaf [] s = (outL, sL)"
    and "outL \<noteq> []" and "\<not> limitReached s"
    and "currentSize s + (2 * (k + n) + 19) \<le> MAX_SIZE"
  shows "\<exists>out. out \<noteq> [] \<and>
           processEntries cx_plain (''w'' # replicate k ''d'') (nested n leaf) [] s =
             (out, sL\<lparr>currentSize := currentSize sL + n * (2 * k + n + 18)\<rparr>)"
  using assms
proof (induction n arbitrary: k)
  case 0
  then show ?case by simp
next
  case (Suc m)
  have "\<exists>out. out \<noteq> [] \<and>
           processEntries cx_plain (''w'' # replicate (Suc k) ''d'') (nested m leaf) [] s =
             (out, sL\<lparr>currentSize := currentSize sL + m * (2 * Suc k + m + 18)\<rparr>)"
    using Suc.prems by (intro Suc.IH) simp_all
  then obtain inner where inner: "inner \<noteq> []"
    "processEntries cx_plain (''w'' # replicate (Suc k) ''d'') (nested m leaf) [] s =
       (inner, sL\<lparr>currentSize := currentSize sL + m * (2 * Suc k + m + 18)\<rparr>)"
    by blast
  have kept: "\<not> entrySkipped cx_plain (''w'' # replicate k ''d'') ''d'' (Directory (Some (nested m leaf)))"
    by (simp add: plain_not_skipped dotSkipped_def startsWith_def)
  have fits: "currentSize s + js_length (folderHeaderOf
      (path_relative (cwd cx_plain) (path_join (''w'' # replicate k ''d'') ''d''))) \<le> MAX_SIZE"
    using Suc.prems(4) by (simp add: level_folder_header)
  have call: "processDirectory cx_plain (path_join (''w'' # replicate k ''d'') ''d'')
      (Some (nested m leaf)) s =
      (inner, sL\<lparr>currentSize := currentSize sL + m * (2 * Suc k + m + 18)\<rparr>)"
    using inner(2) by (simp add: enter_level)
  have "processEntries cx_plain (''w'' # replicate k ''d'') (nested (Suc m) leaf) [] s =
      (folderHeaderOf (path_relative (cwd cx_plain) (path_join (''w'' # replicate k ''d'') ''d'')) @ inner,
       sL\<lparr>currentSize := currentSize sL + Suc m * (2 * k + Suc m + 18)\<rparr>)"
    using processEntries_dir_fits[OF Suc.prems(3) kept fits call, of "[]" "[]"] inner(1)
    by (simp add: level_folder_header algebra_simps)
  with inner(1) show ?case
    by (intro exI[of _ "folderHeaderOf (path_relative (cwd cx_plain)
          (path_join (''w'' # replicate k ''d'') ''d'')) @ inner"]) simp
qed

lemma nested_units:
  "set (unitSizes cx_plain (''w'' # replicate k ''d'') (nested n leaf)) =
     (\<lambda>j. 2 * j + 19) ` {k ..< k + n} \<union>
     set (unitSizes cx_plain (''w'' # replicate (k + n) ''d'') leaf)"
proof (induction n arbitrary: k)
  case 0
  show ?case by simp
next
  case (Suc m)
  have step: "unitSizes cx_plain (''w'' # replicate k ''d'') (nested (Suc m) leaf) =
      (2 * k + 19) # unitSizes cx_plain (''w'' # replicate (Suc k) ''d'') (nested m leaf)"
    by (simp add: Let_def level_folder_header[unfolded enter_level] enter_level
        del: replicate.simps)
  have "{k ..< k + Suc m} = insert k {Suc k ..< Suc k + m}"
    by auto
  then show ?case
    unfolding step using Suc.IH[of "Suc k"]
    by (simp del: replicate.simps)
qed

lemma leaf_units:
  "unitSizes cx_plain (''w'' # replicate 1700 ''d'') leaf_files = [2621417, 2621417]"
proof -
  have rel: "path_relative (cwd cx_plain) (path_join (''w'' # replicate 1700 ''d'') name) =
      join_slash (replicate 1700 ''d'' @ [name])" for name
    using level_relative[of 1700 name] by (simp add: cx_plain_def)
  have nb: "\<not> isBinaryFile half_text (path_string (path_join (''w'' # replicate 1700 ''d'') ''x''))"
    "\<not> isBinaryFile half_text (path_string (path_join (''w'' # replicate 1700 ''d'') ''y''))"
    using half_text_facts(1,2)[of "''w'' # replicate 1700 ''d''"]
    by (simp_all add: path_join_def)
  show ?thesis
    by (simp add: leaf_files_def Let_def rel nb half_text_facts(3,4) file_header_size
        byteLength_def[of half_text])
qed

lemma deep_tree_largest: "largestUnit cx_plain [''w''] deep_tree = 2621417"
proof -
  have units: "set (unitSizes cx_plain [''w''] deep_tree) =
      (\<lambda>j. 2 * j + 19) ` {0 ..< 1700} \<union> {2621417}"
    using nested_units[of 0 1700 leaf_files] by (simp add: deep_tree_def leaf_units)
  have "largestUnit cx_plain [''w''] deep_tree = Max (set (0 # unitSizes cx_plain [''w''] deep_tree))"
    by (simp only: largestUnit_def Max.set_eq_fold)
  also have "\<dots> = 2621417"
    unfolding list.set units by (rule Max_eqI) auto
  finally show ?thesis .
qed

lemma deep_tree_walk:
  "\<exists>out. processDirectory cx_plain [''w''] (Some deep_tree) after_root_header =
     (out, \<lparr>currentSize = 8163460, limitReached = False\<rparr>)"
proof -
  have live: "\<not> limitReached after_root_header"
    and fits: "currentSize after_root_header + (2 * (0 + 1700) + 19) \<le> MAX_SIZE"
    by (simp_all add: after_root_header_def MAX_SIZE_def)
  have nonempty: "fileHeaderOf (join_slash (replicate 1700 ''d'' @ [''x''])) @ half_text @
      fileHeaderOf (join_slash (replicate 1700 ''d'' @ [''y''])) @ half_text \<noteq> []"
    by (simp add: fileHeaderOf_def)
  from nested_walk[of 0 1700 leaf_files after_root_header, OF _ nonempty live fits] leaf_walk
  show ?thesis
    by (auto simp: deep_tree_def)
qed

text \<open>
  Claim C3 on the tree of 1700 nested directories. The counter never decreases
  (\<open>walk_mono\<close>), but the bound of the claim fails here. Both files pass their check
  and bring the counter to 5242860, below the cap of 5242880. Each folder header was
  checked before the descent, when the counter was 26, and is added after the return:
  the 1700 headers add 2920600 bytes. The run ends with the counter at 8163460 and the
  flag never set, 2920580 bytes above the cap, while the largest unit of output of the
  whole tree, a file block, has 2621417 bytes.
\<close>

theorem C3_counter_overshoots_cap:
  "currentSize (snd (processDirectory cx_plain [''w''] (Some deep_tree) after_root_header)) = 8163460 \<and>
   \<not> limitReached (snd (processDirectory cx_plain [''w''] (Some deep_tree) after_root_header)) \<and>
   largestUnit cx_plain [''w''] deep_tree = 2621417 \<and>
   MAX_SIZE + 2621417 < 8163460"
  using deep_tree_walk deep_tree_largest by (auto simp: MAX_SIZE_def)

end
